theory Spec2Isabelle
  imports Main "HOL-Library.Sublist"
begin

section \<open>Strings and the lodash helpers\<close>

text \<open>
  A JavaScript string is modelled as a \<open>string\<close>: one \<open>char\<close> per code unit, for code
  units below 256. The three characters that cannot be written inside a string literal
  get names.
\<close>

definition squote :: char where
  "squote = CHR 0x27"

definition dquote :: char where
  "dquote = CHR 0x22"

definition backtick :: char where
  "backtick = CHR 0x60"

text \<open>\<open>Array.prototype.join\<close>.\<close>

fun join :: "string \<Rightarrow> string list \<Rightarrow> string" where
  "join sep [] = []"
| "join sep [x] = x"
| "join sep (x # y # ys) = x @ sep @ join sep (y # ys)"

text \<open>\<open>const formatPaths = paths => `"${paths.join('", "')}"`\<close>\<close>

definition formatPaths :: "string list \<Rightarrow> string" where
  "formatPaths paths = dquote # join ([dquote] @ '', '' @ [dquote]) paths @ [dquote]"

text \<open>lodash \<open>trimStart(string, chars)\<close> and \<open>trimEnd(string, chars)\<close>.\<close>

definition trimStart :: "string \<Rightarrow> string \<Rightarrow> string" where
  "trimStart s chars = dropWhile (\<lambda>c. c \<in> set chars) s"


text \<open>
  lodash \<open>intersection(in1, in2)\<close>: the values of the first array that the second
  includes, each once, in the order of the first array.
\<close>

fun baseIntersection :: "string list \<Rightarrow> string list \<Rightarrow> string list \<Rightarrow> string list" where
  "baseIntersection [] ys res = res"
| "baseIntersection (x # xs) ys res =
     (if x \<notin> set res \<and> x \<in> set ys then baseIntersection xs ys (res @ [x])
      else baseIntersection xs ys res)"

definition intersection :: "string list \<Rightarrow> string list \<Rightarrow> string list" where
  "intersection xs ys = baseIntersection xs ys []"

section \<open>Searching and replacing in strings\<close>

text \<open>The index of the first occurrence of \<open>pat\<close> in a text, if there is one.\<close>

fun search :: "string \<Rightarrow> string \<Rightarrow> nat option" where
  "search pat [] = (if pat = [] then Some 0 else None)"
| "search pat (c # cs) =
     (if prefix pat (c # cs) then Some 0 else map_option Suc (search pat cs))"

text \<open>\<open>String.prototype.indexOf\<close>: the index of the first occurrence, or \<open>-1\<close>.\<close>

definition indexOf :: "string \<Rightarrow> string \<Rightarrow> int" where
  "indexOf t pat = (case search pat t of None \<Rightarrow> - 1 | Some i \<Rightarrow> int i)"

text \<open>
  What \<open>String.prototype.replace\<close> inserts for a replacement string (ECMAScript's
  GetSubstitution): \<open>$$\<close> is a dollar sign, \<open>$&\<close> the matched text, \<open>$`\<close> the text
  before the match and \<open>$'\<close> the text after it. No pattern of this program has a
  capture group, so \<open>$1\<close> to \<open>$99\<close> stay as they are.
\<close>

fun getSubstitution :: "string \<Rightarrow> string \<Rightarrow> string \<Rightarrow> string \<Rightarrow> string" where
  "getSubstitution matched before after [] = []"
| "getSubstitution matched before after [c] = [c]"
| "getSubstitution matched before after (c # d # r) =
     (if c = CHR ''$'' \<and> d = CHR ''$'' then CHR ''$'' # getSubstitution matched before after r
      else if c = CHR ''$'' \<and> d = CHR ''&'' then matched @ getSubstitution matched before after r
      else if c = CHR ''$'' \<and> d = backtick then before @ getSubstitution matched before after r
      else if c = CHR ''$'' \<and> d = squote then after @ getSubstitution matched before after r
      else c # getSubstitution matched before after (d # r))"

text \<open>\<open>text.replace(pat, replacement)\<close> for a string \<open>pat\<close>: the first occurrence only.\<close>

definition replace :: "string \<Rightarrow> string \<Rightarrow> string \<Rightarrow> string" where
  "replace t pat replacement =
     (case search pat t of
        None \<Rightarrow> t
      | Some i \<Rightarrow>
          let before = take i t; after = drop (i + length pat) t
          in before @ getSubstitution pat before after replacement @ after)"

text \<open>The class \<open>\s\<close> of a regular expression, for code units below 256.\<close>

definition isWhiteSpace :: "char \<Rightarrow> bool" where
  "isWhiteSpace c =
     (c \<in> {CHR 0x09, CHR 0x0A, CHR 0x0B, CHR 0x0C, CHR 0x0D, CHR 0x20, CHR 0xA0})"

text \<open>
  The regular expression \<open>/\$table_prefix\s*=\s*'wp_'/\<close>: the length of its match at
  the start of a text. The characters after each \<open>\s*\<close> are not white space, so the
  greedy match is the only one.
\<close>

definition matchTablePrefix :: "string \<Rightarrow> nat option" where
  "matchTablePrefix t =
     (if prefix ''$table_prefix'' t then
        (case dropWhile isWhiteSpace (drop (length ''$table_prefix'') t) of
           [] \<Rightarrow> None
         | c # r \<Rightarrow>
             if c = CHR ''='' then
               (let r' = dropWhile isWhiteSpace r
                in if prefix ([squote] @ ''wp_'' @ [squote]) r'
                   then Some (length t - length r' + length ([squote] @ ''wp_'' @ [squote]))
                   else None)
             else None)
      else None)"

text \<open>The leftmost match of the regular expression: its index and its length.\<close>

fun searchTablePrefix :: "string \<Rightarrow> (nat \<times> nat) option" where
  "searchTablePrefix [] = None"
| "searchTablePrefix (c # cs) =
     (case matchTablePrefix (c # cs) of
        Some n \<Rightarrow> Some (0, n)
      | None \<Rightarrow> map_option (\<lambda>(i, n). (Suc i, n)) (searchTablePrefix cs))"

text \<open>\<open>text.replace(/\$table_prefix\s*=\s*'wp_'/, replacement)\<close>\<close>

definition replaceTablePrefix :: "string \<Rightarrow> string \<Rightarrow> string" where
  "replaceTablePrefix t replacement =
     (case searchTablePrefix t of
        None \<Rightarrow> t
      | Some (i, n) \<Rightarrow>
          let before = take i t; matched = take n (drop i t); after = drop (i + n) t
          in before @ getSubstitution matched before after replacement @ after)"

section \<open>The configuration template\<close>

datatype pattern = Str string | TablePrefixRegExp

text \<open>A missing key reads as \<open>undefined\<close>, which \<open>replace\<close> turns into a string.\<close>

definition toString :: "string option \<Rightarrow> string" where
  "toString v = (case v of None \<Rightarrow> ''undefined'' | Some x \<Rightarrow> x)"

definition wpDebugFalse :: string where
  "wpDebugFalse = ''define('' @ [squote] @ ''WP_DEBUG'' @ [squote] @ '', false)''"

definition wpDebug :: "string option \<Rightarrow> string" where
  "wpDebug wpEnv =
     ''define('' @ [squote] @ ''WP_DEBUG'' @ [squote] @ '', ''
       @ (if wpEnv = Some ''development'' then ''true'' else ''false'') @ '')''"

text \<open>The rule list; \<open>None\<close> is the \<open>null\<close> of a prefix that is missing or empty.\<close>

definition findReplace :: "(string \<rightharpoonup> string) \<Rightarrow> (pattern \<times> string option) list" where
  "findReplace e =
     [(Str ''database_name_here'', Some (toString (e ''DB_NAME''))),
      (Str ''username_here'', Some (toString (e ''DB_USER''))),
      (Str ''password_here'', Some (toString (e ''DB_PASSWORD''))),
      (Str ''localhost'', Some (toString (e ''DB_HOST''))),
      (Str wpDebugFalse, Some (wpDebug (e ''WP_ENV''))),
      (TablePrefixRegExp,
         (case e ''DB_PREFIX'' of
            None \<Rightarrow> None
          | Some p \<Rightarrow> if p = [] then None
                      else Some (''$table_prefix = '' @ [squote] @ p @ [squote])))]"

text \<open>The \<open>for\<close> loop over the rules.\<close>

fun substitute :: "(pattern \<times> string option) list \<Rightarrow> string \<Rightarrow> string" where
  "substitute [] template = template"
| "substitute ((pat, None) # rules) template = substitute rules template"
| "substitute ((Str pat, Some replacement) # rules) template =
     substitute rules (replace template pat replacement)"
| "substitute ((TablePrefixRegExp, Some replacement) # rules) template =
     substitute rules (replaceTablePrefix template replacement)"

definition placeholder :: string where
  "placeholder = ''put your unique phrase here''"

text \<open>
  The \<open>while\<close> loop: \<open>generate n\<close> is the \<open>n\<close>-th token that \<open>randomstring.generate(64)\<close>
  returns. The result is the text and the number of tokens drawn so far; \<open>None\<close> is a
  loop that does not end.
\<close>

partial_function (option) secrets :: "(nat \<Rightarrow> string) \<Rightarrow> nat \<Rightarrow> string \<Rightarrow> (string \<times> nat) option" where
  "secrets generate n template =
     (if indexOf template placeholder \<noteq> - 1
      then secrets generate (Suc n) (replace template placeholder (generate n))
      else Some (template, n))"

definition populateWpConfig ::
  "(nat \<Rightarrow> string) \<Rightarrow> nat \<Rightarrow> string \<Rightarrow> (string \<rightharpoonup> string) \<Rightarrow> (string \<times> nat) option" where
  "populateWpConfig generate n template e = secrets generate n (substitute (findReplace e) template)"

text \<open>
  The tokens of \<open>randomstring.generate(64)\<close>: 64 characters of the library's default
  alphanumeric character set.
\<close>

definition alphanumeric :: "char \<Rightarrow> bool" where
  "alphanumeric c =
     (c \<in> set ''0123456789abcdefghijklmnopqrstuvwxyzABCDEFGHIJKLMNOPQRSTUVWXYZ'')"

definition validToken :: "string \<Rightarrow> bool" where
  "validToken token = (length token = 64 \<and> list_all alphanumeric token)"

text \<open>The number of occurrences of a pattern in a text.\<close>

fun occurrences :: "string \<Rightarrow> string \<Rightarrow> nat" where
  "occurrences pat [] = (if pat = [] then 1 else 0)"
| "occurrences pat (c # cs) = (if prefix pat (c # cs) then 1 else 0) + occurrences pat cs"

text \<open>
  A text with holes: pieces with one token between each two of them, the \<open>n\<close>-th
  token first.
\<close>

fun fill :: "(nat \<Rightarrow> string) \<Rightarrow> nat \<Rightarrow> string list \<Rightarrow> string" where
  "fill generate n [] = []"
| "fill generate n [a] = a"
| "fill generate n (a # b # pieces) = a @ generate n @ fill generate (Suc n) (b # pieces)"

text \<open>
  Pieces are fenced when each hole lies between two characters that do not occur in
  the placeholder, as the quotes of \<open>define('AUTH_KEY', 'put your unique phrase here');\<close>
\<close>

fun fenced :: "string list \<Rightarrow> bool" where
  "fenced [] = True"
| "fenced [a] = True"
| "fenced (a # b # pieces) =
     (a \<noteq> [] \<and> last a \<notin> set placeholder \<and> b \<noteq> [] \<and> hd b \<notin> set placeholder
      \<and> fenced (b # pieces))"

text \<open>
  The segments of a text: what lies between its single quotes. In the sample
  configuration file every placeholder is one segment, as in
  \<open>define( 'DB_NAME', 'database_name_here' );\<close>
\<close>

fun segments :: "string \<Rightarrow> string list" where
  "segments [] = [[]]"
| "segments (c # cs) =
     (if c = squote then [] # segments cs
      else (case segments cs of
              [] \<Rightarrow> [[c]]
            | seg # segs \<Rightarrow> (c # seg) # segs))"


text \<open>The four literals of the database settings; with the secret placeholder, the patterns.\<close>

definition literals :: "string list" where
  "literals = [''database_name_here'', ''username_here'', ''password_here'', ''localhost'']"

definition patterns :: "string list" where
  "patterns = literals @ [placeholder]"

text \<open>
  Segments are tidy when a segment that contains a pattern is that pattern, and a
  value is clean when it holds no single quote, no dollar sign and no pattern.
\<close>

definition tidy :: "string list \<Rightarrow> bool" where
  "tidy segs = (\<forall>seg \<in> set segs. \<forall>pat \<in> set patterns. sublist pat seg \<longrightarrow> seg = pat)"


section \<open>The engine and the world it runs in\<close>

datatype connection = Open | Ended

text \<open>
  The two statements sent to the database:
  \<open>DELETE FROM `wp_options` WHERE `option_name` IN (...)\<close> and
  \<open>INSERT INTO `wp_options` (`option_name`, `option_value`) VALUES (?, ?)\<close> with its
  two parameters (\<open>None\<close> is an \<open>undefined\<close> parameter, sent as \<open>NULL\<close>).
\<close>

datatype statement =
    DeleteWhereNameIn "string list"
  | InsertNameValue string "string option"

text \<open>The calls to external collaborators; each may fail.\<close>

datatype op =
    Globby string
  | MakeDir string
  | EnvFile string
  | ReadFile string
  | WriteFile string
  | Mv string string
  | Mysqldump string
  | CreateConnection
  | MysqlQuery statement
  | MysqlEnd

text \<open>
  What a promise is rejected with: an \<open>Interruption\<close> with its message, the error of a
  failed external call, or the \<open>TypeError\<close> of reading a property of \<open>undefined\<close>.
  \<open>Uncaught\<close> is no rejection: it is an \<open>error\<close> event emitted on an object that has no
  listener for it, which is thrown outside every promise and ends the process.
\<close>

datatype error = Interruption string | Failure op | TypeError | Uncaught

text \<open>
  How the child process of \<open>spawn('mysqldump', ...)\<close> ends: with exit status 0 after
  writing the dump to its standard output, with another exit status and nothing
  written (wrong credentials, unknown database, unreachable server), or not at all
  because the program could not be started, which the child object reports by an
  \<open>error\<close> event.
\<close>

datatype child = ExitZero | ExitNonZero | SpawnError

text \<open>
  The fields of the \<open>Engine\<close> object (\<open>root\<close>, \<open>env\<close>, \<open>mysql\<close>; the last two are
  \<open>undefined\<close> until \<open>readEnv\<close> and \<open>mysqlConnect\<close> assign them) together with the
  outside world: the paths \<open>fs.access\<close> reaches, what \<open>globby('*', {cwd})\<close> lists, the
  file contents, what \<open>node-env-file\<close> parses, the rows of \<open>wp_options\<close>, the tokens of
  \<open>randomstring.generate(64)\<close> and how many were drawn, the rendering of
  \<open>(new Date()).getTime()\<close>, the working directory, which external calls fail, the
  calls made so far, how the \<open>mysqldump\<close> child process ends, and the files that hold
  a dump of \<open>wp_options\<close> with the rows dumped. \<open>entries\<close> gives all the entries of a
  directory, those beginning with a dot included.
\<close>

record state =
  root :: string
  env :: "(string \<rightharpoonup> string) option"
  mysql :: "connection option"
  files :: "string set"
  entries :: "string \<Rightarrow> string list"
  text_of :: "string \<Rightarrow> string"
  env_file :: "string \<Rightarrow> (string \<rightharpoonup> string)"
  wp_options :: "(string \<times> string option) list"
  random :: "nat \<Rightarrow> string"
  drawn :: nat
  clock :: string
  cwd :: string
  faulty :: "op \<Rightarrow> bool"
  trace :: "op list"
  mysqldump :: child
  dumps :: "string \<rightharpoonup> (string \<times> string option) list"

type_synonym 'a action = "state \<Rightarrow> (error + 'a) \<times> state"

text \<open>\<open>await m; k\<close>: a rejection of \<open>m\<close> skips \<open>k\<close>.\<close>

definition await :: "'a action \<Rightarrow> ('a \<Rightarrow> 'b action) \<Rightarrow> 'b action" where
  "await m k s = (case m s of (Inl e, s') \<Rightarrow> (Inl e, s') | (Inr x, s') \<Rightarrow> k x s')"

text \<open>An external call: recorded, then it fails or has its effect.\<close>

definition call :: "op \<Rightarrow> (state \<Rightarrow> state) \<Rightarrow> unit action" where
  "call c effect s =
     (let s' = s\<lparr>trace := trace s @ [c]\<rparr>
      in if faulty s c then (Inl (Failure c), s') else (Inr (), effect s'))"

definition abs_path :: "state \<Rightarrow> string \<Rightarrow> string" where
  "abs_path s path = root s @ ''/'' @ trimStart path ''/''"

definition exists_path :: "state \<Rightarrow> string \<Rightarrow> bool" where
  "exists_path s relPath = (abs_path s relPath \<in> files s)"

text \<open>
  \<open>globby('*', {cwd: dir})\<close>: the pattern \<open>*\<close> is matched without the option \<open>dot\<close>, so
  the entries whose name begins with a dot are not listed.
\<close>

definition star :: "string list \<Rightarrow> string list" where
  "star names = filter (\<lambda>name. \<not> prefix ''.'' name) names"

definition globby :: "string \<Rightarrow> string list action" where
  "globby dir s =
     (case call (Globby dir) (\<lambda>s. s) s of
        (Inl e, s') \<Rightarrow> (Inl e, s')
      | (Inr _, s') \<Rightarrow> (Inr (star (entries s' dir)), s'))"

section \<open>Sanity checks\<close>

definition expectedPresent :: "string list" where
  "expectedPresent = [''.env'', ''web/app'', ''web/wp'', ''web/wp/wp-config-sample.php'']"

definition expectedAbsent :: "string list" where
  "expectedAbsent = [''web/wp/wp-config.php'']"

definition wpFolders :: "string list" where
  "wpFolders = [''languages'', ''mu-plugins'', ''plugins'', ''themes'', ''uploads'', ''upgrade'']"

definition checkAllPairs :: "state \<Rightarrow> string list \<Rightarrow> (string \<times> bool) list" where
  "checkAllPairs s paths = map (\<lambda>path. (path, exists_path s path)) paths"

definition filterByStatus :: "state \<Rightarrow> string list \<Rightarrow> bool \<Rightarrow> string list" where
  "filterByStatus s paths presentExpected =
     (let pairs = checkAllPairs s paths;
          violations = filter (\<lambda>(_, present). present \<noteq> presentExpected) pairs
      in map fst violations)"

definition absentMessage :: "string list \<Rightarrow> string" where
  "absentMessage absent = ''Expected file(s): '' @ formatPaths absent @ '' not present''"

definition presentMessage :: "string list \<Rightarrow> string" where
  "presentMessage present = ''Unexpected file(s): '' @ formatPaths present @ '' present''"

definition checkPresence :: "unit action" where
  "checkPresence s =
     (let absent = filterByStatus s expectedPresent True
      in if length absent \<noteq> 0 then (Inl (Interruption (absentMessage absent)), s)
         else let present = filterByStatus s expectedAbsent False
              in if length present \<noteq> 0 then (Inl (Interruption (presentMessage present)), s)
                 else (Inr (), s))"

definition conflictMessage :: "string list \<Rightarrow> string \<Rightarrow> string \<Rightarrow> string" where
  "conflictMessage intersect path1 path2 =
     ''Conflict: '' @ formatPaths intersect @ '' present in both '' @ path1 @ '' and '' @ path2
       @ '', remove one to continue''"

definition checkConflicts :: "string \<Rightarrow> string \<Rightarrow> unit action" where
  "checkConflicts path1 path2 s =
     await (globby (abs_path s path1)) (\<lambda>in1.
     await (globby (abs_path s path2)) (\<lambda>in2. (\<lambda>s'.
       let intersect = intersection in1 in2
       in if length intersect \<noteq> 0
          then (Inl (Interruption (conflictMessage intersect path1 path2)), s')
          else (Inr (), s')))) s"

fun checkAllConflicts :: "string list \<Rightarrow> unit action" where
  "checkAllConflicts [] s = (Inr (), s)"
| "checkAllConflicts (wpFolder # rest) s =
     await (checkConflicts (''web/app/'' @ wpFolder) (''web/wp/wp-content/'' @ wpFolder))
       (\<lambda>_. checkAllConflicts rest) s"

definition sanityChecks :: "unit action" where
  "sanityChecks = await checkPresence (\<lambda>_. checkAllConflicts wpFolders)"

section \<open>Archiving\<close>

text \<open>
  \<open>mv(src, dest)\<close>: the path and everything under it becomes reachable under \<open>dest\<close>
  and is no longer reachable under \<open>src\<close>.
\<close>

definition under :: "string \<Rightarrow> string \<Rightarrow> bool" where
  "under dir p = (p = dir \<or> prefix (dir @ ''/'') p)"

definition moved :: "string \<Rightarrow> string \<Rightarrow> string set \<Rightarrow> string set" where
  "moved src dest fs =
     {p \<in> fs. \<not> under src p} \<union> (\<lambda>p. dest @ drop (length src) p) ` {p \<in> fs. under src p}"

definition mv :: "string \<Rightarrow> string \<Rightarrow> unit action" where
  "mv src dest = call (Mv src dest) (\<lambda>s. s\<lparr>files := moved src dest (files s)\<rparr>)"

text \<open>What \<open>archive\<close> returns: \<open>false\<close>, or \<open>undefined\<close> after the move.\<close>

datatype archived = ReturnedFalse | ReturnedUndefined

definition archive :: "string \<Rightarrow> archived action" where
  "archive path s =
     (if \<not> exists_path s path then (Inr ReturnedFalse, s)
      else let path' = trimStart path ''/''
           in await (mv (abs_path s path') (abs_path s (''.debedrockify/old/'' @ path')))
                (\<lambda>_ s'. (Inr ReturnedUndefined, s')) s)"

section \<open>Configuration and database\<close>

definition makeDir :: "string \<Rightarrow> unit action" where
  "makeDir dir = call (MakeDir dir) (\<lambda>s. s\<lparr>files := insert dir (files s)\<rparr>)"

definition readEnv :: "unit action" where
  "readEnv s =
     (let file = abs_path s ''.env''
      in call (EnvFile file) (\<lambda>s. s\<lparr>env := Some (env_file s file)\<rparr>) s)"

text \<open>
  \<open>mysqlBackup\<close>: the standard output of the child process is piped into a stream that
  writes the dump file; the promise is resolved by the \<open>finish\<close> event of that stream and
  rejected by its \<open>error\<close> event (\<open>faulty s (Mysqldump dest)\<close>). Nothing listens to the
  child process itself: its exit status is not read, so that a \<open>mysqldump\<close> that exits
  with an error and writes nothing leaves an empty file and a resolved promise, and
  the \<open>error\<close> event of a child that could not be started has no listener.
\<close>

definition mysqlBackup :: "unit action" where
  "mysqlBackup s =
     (case env s of
        None \<Rightarrow> (Inl TypeError, s)
      | Some e \<Rightarrow>
          let dest = abs_path s (''.debedrockify/mysql_backup_'' @ clock s @ ''.sql'')
          in if mysqldump s = SpawnError
             then (Inl Uncaught, s\<lparr>trace := trace s @ [Mysqldump dest]\<rparr>)
             else call (Mysqldump dest)
                    (\<lambda>s. s\<lparr>files := insert dest (files s),
                           dumps := (if mysqldump s = ExitZero
                                     then (dumps s)(dest \<mapsto> wp_options s) else dumps s)\<rparr>) s)"

text \<open>
  \<open>envToWpConfig\<close>; \<open>None\<close> when the loop of \<open>populateWpConfig\<close> does not end.
\<close>

definition envToWpConfig :: "state \<Rightarrow> ((error + unit) \<times> state) option" where
  "envToWpConfig s =
     (let sample = abs_path s ''web/wp/wp-config-sample.php'';
          dest = abs_path s ''web/wp/wp-config.php''
      in case call (ReadFile sample) (\<lambda>s. s) s of
           (Inl err, s1) \<Rightarrow> Some (Inl err, s1)
         | (Inr _, s1) \<Rightarrow>
             (case env s1 of
                None \<Rightarrow> Some (Inl TypeError, s1)
              | Some e \<Rightarrow>
                  (case populateWpConfig (random s1) (drawn s1) (text_of s1 sample) e of
                     None \<Rightarrow> None
                   | Some (wpConfig, n) \<Rightarrow>
                       Some (call (WriteFile dest)
                         (\<lambda>s. s\<lparr>text_of := (text_of s)(dest := wpConfig),
                                files := insert dest (files s)\<rparr>)
                         (s1\<lparr>drawn := n\<rparr>)))))"

definition mysqlConnect :: "unit action" where
  "mysqlConnect s =
     (case env s of
        None \<Rightarrow> (Inl TypeError, s)
      | Some e \<Rightarrow> call CreateConnection (\<lambda>s. s\<lparr>mysql := Some Open\<rparr>) s)"

text \<open>\<open>this.mysql.end()\<close>; a connection that was ended refuses further commands.\<close>

definition mysqlDisconnect :: "unit action" where
  "mysqlDisconnect s =
     (case mysql s of
        None \<Rightarrow> (Inl TypeError, s)
      | Some Ended \<Rightarrow> (Inl (Failure MysqlEnd), s\<lparr>trace := trace s @ [MysqlEnd]\<rparr>)
      | Some Open \<Rightarrow> call MysqlEnd (\<lambda>s. s\<lparr>mysql := Some Ended\<rparr>) s)"

text \<open>What a statement does to the rows of \<open>wp_options\<close>.\<close>

fun execute :: "statement \<Rightarrow> (string \<times> string option) list \<Rightarrow> (string \<times> string option) list" where
  "execute (DeleteWhereNameIn names) rows = filter (\<lambda>(name, _). name \<notin> set names) rows"
| "execute (InsertNameValue name val) rows = rows @ [(name, val)]"

definition mysqlQuery :: "statement \<Rightarrow> unit action" where
  "mysqlQuery q s =
     (case mysql s of
        None \<Rightarrow> (Inl TypeError, s)
      | Some Ended \<Rightarrow> (Inl (Failure (MysqlQuery q)), s\<lparr>trace := trace s @ [MysqlQuery q]\<rparr>)
      | Some Open \<Rightarrow>
          call (MysqlQuery q) (\<lambda>s. s\<lparr>wp_options := execute q (wp_options s)\<rparr>) s)"

definition updateDbSiteUrl :: "unit action" where
  "updateDbSiteUrl =
     await (mysqlQuery (DeleteWhereNameIn [''siteurl'', ''home''])) (\<lambda>_ s.
       case env s of
         None \<Rightarrow> (Inl TypeError, s)
       | Some e \<Rightarrow>
           let url = e ''WP_HOME''
           in await (mysqlQuery (InsertNameValue ''siteurl'' url))
                (\<lambda>_. mysqlQuery (InsertNameValue ''home'' url)) s)"

definition doDb :: "unit action" where
  "doDb =
     await mysqlBackup (\<lambda>_.
     await mysqlConnect (\<lambda>_.
     await updateDbSiteUrl (\<lambda>_.
     mysqlDisconnect)))"

section \<open>The full procedure\<close>

definition run :: "state \<Rightarrow> ((error + unit) \<times> state) option" where
  "run s =
     (case sanityChecks s of
        (Inl err, s1) \<Rightarrow> Some (Inl err, s1)
      | (Inr _, s1) \<Rightarrow>
          (case makeDir (abs_path s1 ''.debedrockify/old'') s1 of
             (Inl err, s2) \<Rightarrow> Some (Inl err, s2)
           | (Inr _, s2) \<Rightarrow>
               (case readEnv s2 of
                  (Inl err, s3) \<Rightarrow> Some (Inl err, s3)
                | (Inr _, s3) \<Rightarrow>
                    (case envToWpConfig s3 of
                       None \<Rightarrow> None
                     | Some (Inl err, s4) \<Rightarrow> Some (Inl err, s4)
                     | Some (Inr _, s4) \<Rightarrow> Some (doDb s4)))))"



text \<open>
  The spec's two lists of violations: the required paths that are absent and the
  forbidden paths that are present.
\<close>

definition missing :: "state \<Rightarrow> string list" where
  "missing s = filter (\<lambda>p. \<not> exists_path s p) expectedPresent"

definition unexpected :: "state \<Rightarrow> string list" where
  "unexpected s = filter (\<lambda>p. exists_path s p) expectedAbsent"

text \<open>The calls an action makes: what it appends to the trace.\<close>

definition events :: "'a action \<Rightarrow> state \<Rightarrow> op list" where
  "events m s = drop (length (trace s)) (trace (snd (m s)))"

text \<open>The dump file of a run, and the three statements of the site-URL rewrite.\<close>

definition dumpFile :: "state \<Rightarrow> string" where
  "dumpFile s = abs_path s (''.debedrockify/mysql_backup_'' @ clock s @ ''.sql'')"

definition siteUrlStatements :: "string option \<Rightarrow> statement list" where
  "siteUrlStatements url =
     [DeleteWhereNameIn [''siteurl'', ''home''],
      InsertNameValue ''siteurl'' url,
      InsertNameValue ''home'' url]"

section \<open>Sample worlds\<close>

text \<open>A short sample configuration file in the shape of \<open>wp-config-sample.php\<close>.\<close>

definition quoted :: "string \<Rightarrow> string" where
  "quoted s = [squote] @ s @ [squote]"

definition sampleTemplate :: string where
  "sampleTemplate =
     ''define('' @ quoted ''DB_NAME'' @ '', '' @ quoted ''database_name_here'' @ '');''
     @ ''define('' @ quoted ''DB_USER'' @ '', '' @ quoted ''username_here'' @ '');''
     @ ''define('' @ quoted ''DB_PASSWORD'' @ '', '' @ quoted ''password_here'' @ '');''
     @ ''define('' @ quoted ''DB_HOST'' @ '', '' @ quoted ''localhost'' @ '');''
     @ ''define('' @ quoted ''AUTH_KEY'' @ '', '' @ quoted ''put your unique phrase here'' @ '');''
     @ ''define('' @ quoted ''NONCE_KEY'' @ '', '' @ quoted ''put your unique phrase here'' @ '');''
     @ ''$table_prefix  = '' @ quoted ''wp_'' @ '';''
     @ ''define('' @ quoted ''WP_DEBUG'' @ '', false);''"

text \<open>
  Tokens: one that begins with \<open>here\<close>, and a source that yields it first and then
  tokens of one repeated letter.
\<close>

definition hereToken :: string where
  "hereToken = ''herexxxxxxxxxxxxxxxxxxxxxxxxxxxxxxxxxxxxxxxxxxxxxxxxxxxxxxxxxxxx''"

definition plainToken :: "nat \<Rightarrow> string" where
  "plainToken n =
     (if n = 0 then ''aaaaaaaaaaaaaaaaaaaaaaaaaaaaaaaaaaaaaaaaaaaaaaaaaaaaaaaaaaaaaaaa''
      else if n = 1 then ''bbbbbbbbbbbbbbbbbbbbbbbbbbbbbbbbbbbbbbbbbbbbbbbbbbbbbbbbbbbbbbbb''
      else ''cccccccccccccccccccccccccccccccccccccccccccccccccccccccccccccccc'')"

definition hereFirst :: "nat \<Rightarrow> string" where
  "hereFirst n = (if n = 0 then hereToken else plainToken n)"

text \<open>A text in which one full placeholder follows the beginning of another.\<close>

definition brokenTemplate :: string where
  "brokenTemplate = ''put your unique phrase put your unique phrase here''"

text \<open>What the sample file becomes with \<open>sampleEnv\<close> and the plain tokens.\<close>

definition sampleConfig :: string where
  "sampleConfig =
     ''define('' @ quoted ''DB_NAME'' @ '', '' @ quoted ''wp'' @ '');''
     @ ''define('' @ quoted ''DB_USER'' @ '', '' @ quoted ''u'' @ '');''
     @ ''define('' @ quoted ''DB_PASSWORD'' @ '', '' @ quoted ''p'' @ '');''
     @ ''define('' @ quoted ''DB_HOST'' @ '', '' @ quoted ''localhost'' @ '');''
     @ ''define('' @ quoted ''AUTH_KEY'' @ '', '' @ quoted (plainToken 0) @ '');''
     @ ''define('' @ quoted ''NONCE_KEY'' @ '', '' @ quoted (plainToken 1) @ '');''
     @ ''$table_prefix = '' @ quoted ''wp_'' @ '';''
     @ ''define('' @ quoted ''WP_DEBUG'' @ '', false);''"

text \<open>The pieces of the sample file around its two placeholders, after the rules.\<close>

definition samplePieces :: "string list" where
  "samplePieces =
     [''define('' @ quoted ''DB_NAME'' @ '', '' @ quoted ''wp'' @ '');''
        @ ''define('' @ quoted ''DB_USER'' @ '', '' @ quoted ''u'' @ '');''
        @ ''define('' @ quoted ''DB_PASSWORD'' @ '', '' @ quoted ''p'' @ '');''
        @ ''define('' @ quoted ''DB_HOST'' @ '', '' @ quoted ''localhost'' @ '');''
        @ ''define('' @ quoted ''AUTH_KEY'' @ '', '' @ [squote],
      [squote] @ '');'' @ ''define('' @ quoted ''NONCE_KEY'' @ '', '' @ [squote],
      [squote] @ '');'' @ ''$table_prefix = '' @ quoted ''wp_'' @ '';''
        @ ''define('' @ quoted ''WP_DEBUG'' @ '', false);'']"

text \<open>
  The example scenario: a Bedrock tree under \<open>/srv/site\<close> with one theme, and a stock
  WordPress under \<open>web/wp\<close>.
\<close>

definition site :: state where
  "site = \<lparr>root = ''/srv/site'', env = None, mysql = None,
     files = {''/srv/site/.env'', ''/srv/site/web/app'', ''/srv/site/web/wp'',
              ''/srv/site/web/wp/wp-config-sample.php''},
     entries = (\<lambda>dir. if dir = ''/srv/site/web/app/themes'' then [''mytheme'']
                       else if dir = ''/srv/site/web/wp/wp-content/themes''
                       then [''twentyseventeen''] else []),
     text_of = (\<lambda>_. []), env_file = (\<lambda>_. Map.empty), wp_options = [],
     random = plainToken, drawn = 0, clock = ''1500000000000'',
     cwd = ''/srv/site/'', faulty = (\<lambda>_. False), trace = [],
     mysqldump = ExitZero, dumps = Map.empty\<rparr>"


text \<open>The same tree after a first run wrote \<open>wp-config.php\<close>, with \<open>.env\<close> removed.\<close>

definition rerun :: state where
  "rerun = site\<lparr>files := {''/srv/site/web/app'', ''/srv/site/web/wp'',
     ''/srv/site/web/wp/wp-config-sample.php'', ''/srv/site/web/wp/wp-config.php''}\<rparr>"

text \<open>The same tree with \<open>.env\<close> in place and \<open>wp-config.php\<close> already written.\<close>

definition configured :: state where
  "configured = site\<lparr>files := insert ''/srv/site/web/wp/wp-config.php'' (files site)\<rparr>"



text \<open>The environment file of the example scenario.\<close>

definition sampleEnv :: "string \<rightharpoonup> string" where
  "sampleEnv = map_of
     [(''DB_NAME'', ''wp''), (''DB_USER'', ''u''), (''DB_PASSWORD'', ''p''),
      (''DB_HOST'', ''localhost''), (''DB_PREFIX'', ''wp_''),
      (''WP_HOME'', ''https://example.com'')]"


text \<open>What the sample file becomes with \<open>remoteEnv\<close> and the plain tokens.\<close>

definition remoteConfig :: string where
  "remoteConfig =
     ''define('' @ quoted ''DB_NAME'' @ '', '' @ quoted ''wp'' @ '');''
     @ ''define('' @ quoted ''DB_USER'' @ '', '' @ quoted ''u'' @ '');''
     @ ''define('' @ quoted ''DB_PASSWORD'' @ '', '' @ quoted ''p'' @ '');''
     @ ''define('' @ quoted ''DB_HOST'' @ '', '' @ quoted ''db.example.com'' @ '');''
     @ ''define('' @ quoted ''AUTH_KEY'' @ '', '' @ quoted (plainToken 0) @ '');''
     @ ''define('' @ quoted ''NONCE_KEY'' @ '', '' @ quoted (plainToken 1) @ '');''
     @ ''$table_prefix = '' @ quoted ''site_'' @ '';''
     @ ''define('' @ quoted ''WP_DEBUG'' @ '', true);''"






text \<open>
  The engine after \<open>readEnv\<close>, on a database that holds two rows for \<open>siteurl\<close>, none
  for \<open>home\<close> and one other option.
\<close>

definition ready :: state where
  "ready = site\<lparr>env := Some sampleEnv,
     wp_options := [(''siteurl'', Some ''http://old.example''),
                    (''blogname'', Some ''Blog''),
                    (''siteurl'', Some ''http://older.example'')]\<rparr>"




text \<open>The same, with a database that rejects the \<open>DELETE\<close> statement.\<close>

definition deleteFails :: state where
  "deleteFails = ready\<lparr>faulty := (\<lambda>c. c = MysqlQuery (DeleteWhereNameIn [''siteurl'', ''home'']))\<rparr>"

text \<open>The engine of \<open>ready\<close> after \<open>mysqlConnect\<close>.\<close>

definition connected :: state where
  "connected = ready\<lparr>mysql := Some Open\<rparr>"

section \<open>Properties of the precondition check\<close>

lemma filterByStatus_True: "filterByStatus s ps True = filter (\<lambda>p. \<not> exists_path s p) ps"
  by (induction ps) (auto simp: filterByStatus_def checkAllPairs_def)

lemma filterByStatus_False: "filterByStatus s ps False = filter (\<lambda>p. exists_path s p) ps"
  by (induction ps) (auto simp: filterByStatus_def checkAllPairs_def)

lemma checkPresence_cases:
  "checkPresence s =
     (if missing s \<noteq> [] then (Inl (Interruption (absentMessage (missing s))), s)
      else if unexpected s \<noteq> [] then (Inl (Interruption (presentMessage (unexpected s))), s)
      else (Inr (), s))"
  by (simp add: checkPresence_def filterByStatus_True filterByStatus_False missing_def
      unexpected_def Let_def)

lemma join_lists: "p \<in> set ps \<Longrightarrow> sublist p (join sep ps)"
proof (induction sep ps rule: join.induct)
  case (3 sep x y ys)
  show ?case
  proof (cases "p = x")
    case True
    then show ?thesis by simp
  next
    case False
    with 3 have "sublist p (join sep (y # ys))" by simp
    then have "sublist p ((x @ sep) @ join sep (y # ys))"
      by (meson sublist_order.order_trans suffix_imp_sublist suffixI)
    then show ?thesis by simp
  qed
qed simp_all

lemma formatPaths_lists: "p \<in> set ps \<Longrightarrow> sublist p (formatPaths ps)"
proof -
  assume "p \<in> set ps"
  then have "sublist p (join ([dquote] @ '', '' @ [dquote]) ps)"
    by (rule join_lists)
  then obtain a b where "join ([dquote] @ '', '' @ [dquote]) ps = a @ p @ b"
    by (auto simp: sublist_def)
  then have "formatPaths ps = (dquote # a) @ p @ (b @ [dquote])"
    by (simp add: formatPaths_def)
  then show ?thesis
    unfolding sublist_def by blast
qed


text \<open>
  C3, as stated, fails: \<open>checkPresence\<close> throws as soon as a required path is absent,
  and the forbidden paths that are present are then not looked at. In the tree
  \<open>rerun\<close>, \<open>.env\<close> is absent and \<open>web/wp/wp-config.php\<close> is present; the report names
  \<open>.env\<close> only.
\<close>

theorem checkPresence_first_list_only:
  "\<not> exists_path rerun ''.env'' \<and> exists_path rerun ''web/wp/wp-config.php''
   \<and> checkPresence rerun = (Inl (Interruption (absentMessage [''.env''])), rerun)
   \<and> \<not> sublist ''web/wp/wp-config.php'' (absentMessage [''.env''])"
  by (simp add: checkPresence_cases missing_def unexpected_def expectedPresent_def
      expectedAbsent_def exists_path_def abs_path_def trimStart_def rerun_def site_def
      absentMessage_def formatPaths_def sublist_code dquote_def)

text \<open>
  C3, amended: \<open>checkPresence\<close> raises a violation iff at least one required path is
  absent or at least one forbidden path is present. When a required path is absent,
  the report is the list of all required paths that are absent, and names each of
  them; otherwise, when a forbidden path is present, the report is the list of all
  forbidden paths that are present, and names each of them. The workspace is left as
  it was.
\<close>

theorem checkPresence_report:
  "(isl (fst (checkPresence s)) \<longleftrightarrow>
      (\<exists>p \<in> set expectedPresent. \<not> exists_path s p) \<or> (\<exists>p \<in> set expectedAbsent. exists_path s p))
   \<and> checkPresence s =
      (if missing s \<noteq> [] then (Inl (Interruption (absentMessage (missing s))), s)
       else if unexpected s \<noteq> [] then (Inl (Interruption (presentMessage (unexpected s))), s)
       else (Inr (), s))
   \<and> set (missing s) = {p \<in> set expectedPresent. \<not> exists_path s p}
   \<and> set (unexpected s) = {p \<in> set expectedAbsent. exists_path s p}
   \<and> (\<forall>p \<in> set (missing s). sublist p (absentMessage (missing s)))
   \<and> (\<forall>p \<in> set (unexpected s). sublist p (presentMessage (unexpected s)))"
proof -
  have iff: "isl (fst (checkPresence s)) \<longleftrightarrow>
      (\<exists>p \<in> set expectedPresent. \<not> exists_path s p) \<or> (\<exists>p \<in> set expectedAbsent. exists_path s p)"
    by (auto simp: checkPresence_cases missing_def unexpected_def filter_empty_conv)
  have named1: "sublist p (absentMessage (missing s))" if "p \<in> set (missing s)" for p
  proof -
    from that obtain a b where "formatPaths (missing s) = a @ p @ b"
      using formatPaths_lists sublist_def by metis
    then have "absentMessage (missing s) = (''Expected file(s): '' @ a) @ p @ (b @ '' not present'')"
      by (simp add: absentMessage_def)
    then show ?thesis unfolding sublist_def by blast
  qed
  have named2: "sublist p (presentMessage (unexpected s))" if "p \<in> set (unexpected s)" for p
  proof -
    from that obtain a b where "formatPaths (unexpected s) = a @ p @ b"
      using formatPaths_lists sublist_def by metis
    then have "presentMessage (unexpected s) = (''Unexpected file(s): '' @ a) @ p @ (b @ '' present'')"
      by (simp add: presentMessage_def)
    then show ?thesis unfolding sublist_def by blast
  qed
  have listed: "set (missing s) = {p \<in> set expectedPresent. \<not> exists_path s p}"
    "set (unexpected s) = {p \<in> set expectedAbsent. exists_path s p}"
    by (simp_all add: missing_def unexpected_def)
  from iff checkPresence_cases [of s] listed named1 named2 show ?thesis
    by blast
qed

theorem checkPresence_report_witness:
  "missing rerun = [''.env''] \<and> unexpected rerun = [''web/wp/wp-config.php'']
   \<and> checkPresence rerun = (Inl (Interruption (absentMessage [''.env''])), rerun)
   \<and> sublist ''.env'' (absentMessage [''.env''])
   \<and> missing configured = [] \<and> unexpected configured = [''web/wp/wp-config.php'']
   \<and> checkPresence configured
       = (Inl (Interruption (presentMessage [''web/wp/wp-config.php''])), configured)
   \<and> sublist ''web/wp/wp-config.php'' (presentMessage [''web/wp/wp-config.php''])
   \<and> missing site = [] \<and> unexpected site = [] \<and> checkPresence site = (Inr (), site)"
proof -
  have m: "missing rerun = [''.env'']" "unexpected rerun = [''web/wp/wp-config.php'']"
    "missing configured = []" "unexpected configured = [''web/wp/wp-config.php'']"
    "missing site = []" "unexpected site = []"
    by (simp_all add: missing_def unexpected_def expectedPresent_def expectedAbsent_def
        exists_path_def abs_path_def trimStart_def rerun_def configured_def site_def)
  show ?thesis
    using checkPresence_report [of rerun] checkPresence_report [of configured]
      checkPresence_report [of site]
    by (simp add: m)
qed

section \<open>Properties of the conflict check\<close>












section \<open>Properties of the archiver\<close>

text \<open>
  C9: for a path that does not exist in the workspace, \<open>archive\<close> returns \<open>false\<close>, not
  an error, makes no external call and leaves the whole state, the file tree
  included, as it was.
\<close>

theorem archive_absent_noop:
  "\<not> exists_path s path \<Longrightarrow> archive path s = (Inr ReturnedFalse, s)"
  by (simp add: archive_def)

theorem archive_absent_noop_witness:
  "\<not> exists_path site ''web/cache'' \<and> archive ''web/cache'' site = (Inr ReturnedFalse, site)"
  using archive_absent_noop [of site "''web/cache''"]
  by (simp add: exists_path_def abs_path_def trimStart_def site_def)

section \<open>Properties of the database procedures\<close>

lemmas db_defs = doDb_def await_def mysqlBackup_def mysqlConnect_def updateDbSiteUrl_def
  mysqlQuery_def mysqlDisconnect_def call_def Let_def

lemma doDb_ready:
  "doDb ready =
     (Inr (),
      ready\<lparr>mysql := Some Ended,
        files := insert (dumpFile ready) (files ready),
        wp_options := [(''blogname'', Some ''Blog''),
          (''siteurl'', Some ''https://example.com''), (''home'', Some ''https://example.com'')],
        trace := [Mysqldump (dumpFile ready), CreateConnection]
          @ map MysqlQuery (siteUrlStatements (Some ''https://example.com'')) @ [MysqlEnd],
        dumps := [dumpFile ready \<mapsto> wp_options ready]\<rparr>)"
  by (simp add: db_defs ready_def site_def sampleEnv_def dumpFile_def siteUrlStatements_def)




lemma doDb_deleteFails:
  "doDb deleteFails =
     (Inl (Failure (MysqlQuery (DeleteWhereNameIn [''siteurl'', ''home'']))),
      deleteFails\<lparr>mysql := Some Open,
        files := insert (dumpFile deleteFails) (files deleteFails),
        trace := [Mysqldump (dumpFile deleteFails), CreateConnection,
          MysqlQuery (DeleteWhereNameIn [''siteurl'', ''home''])],
        dumps := [dumpFile deleteFails \<mapsto> wp_options deleteFails]\<rparr>)"
  by (simp add: db_defs deleteFails_def ready_def site_def dumpFile_def)




text \<open>
  C2, as stated, fails: \<open>doDb\<close> awaits \<open>mysqlDisconnect\<close> after \<open>updateDbSiteUrl\<close>, with
  no \<open>finally\<close>. When the database rejects the \<open>DELETE\<close> statement, the connection
  was opened, \<open>doDb\<close> is rejected, \<open>end\<close> was never called and the connection is open.
\<close>

theorem rewrite_failure_skips_disconnect:
  "\<not> faulty deleteFails CreateConnection
   \<and> CreateConnection \<in> set (events doDb deleteFails)
   \<and> fst (doDb deleteFails)
       = Inl (Failure (MysqlQuery (DeleteWhereNameIn [''siteurl'', ''home''])))
   \<and> MysqlEnd \<notin> set (events doDb deleteFails)
   \<and> mysql (snd (doDb deleteFails)) = Some Open"
proof -
  have "trace deleteFails = []" "\<not> faulty deleteFails CreateConnection"
    by (simp_all add: deleteFails_def ready_def site_def)
  then show ?thesis
    by (simp add: events_def doDb_deleteFails)
qed

text \<open>
  C2, amended: in a run of \<open>doDb\<close> in which \<open>mysqlBackup\<close> is resolved and the connection
  is opened, \<open>mysqlDisconnect\<close> is invoked when the three statements of the rewrite step
  succeed (and the connection is then closed, unless \<open>end\<close> itself fails); when one of
  the three statements fails, \<open>doDb\<close> is rejected with that failure, \<open>end\<close> is not
  called and the connection stays open.
\<close>

theorem disconnect_after_rewrite:
  assumes "env s = Some e"
    and "fst (mysqlBackup s) = Inr ()"
    and "\<not> faulty s CreateConnection"
  shows "((\<forall>q \<in> set (siteUrlStatements (e ''WP_HOME'')). \<not> faulty s (MysqlQuery q))
            \<longrightarrow> MysqlEnd \<in> set (events doDb s)
                \<and> (\<not> faulty s MysqlEnd
                    \<longrightarrow> fst (doDb s) = Inr () \<and> mysql (snd (doDb s)) = Some Ended))
       \<and> ((\<exists>q \<in> set (siteUrlStatements (e ''WP_HOME'')). faulty s (MysqlQuery q))
            \<longrightarrow> (\<exists>q \<in> set (siteUrlStatements (e ''WP_HOME'')).
                   fst (doDb s) = Inl (Failure (MysqlQuery q)))
                \<and> MysqlEnd \<notin> set (events doDb s)
                \<and> mysql (snd (doDb s)) = Some Open)"
  using assms
  by (auto simp: events_def db_defs dumpFile_def siteUrlStatements_def split: if_splits)

theorem disconnect_after_rewrite_witness:
  "env ready = Some sampleEnv
   \<and> fst (mysqlBackup ready) = Inr () \<and> \<not> faulty ready CreateConnection
   \<and> \<not> faulty ready MysqlEnd
   \<and> MysqlEnd \<in> set (events doDb ready)
   \<and> fst (doDb ready) = Inr () \<and> mysql (snd (doDb ready)) = Some Ended
   \<and> env deleteFails = Some sampleEnv
   \<and> fst (mysqlBackup deleteFails) = Inr ()
   \<and> \<not> faulty deleteFails CreateConnection
   \<and> faulty deleteFails (MysqlQuery (DeleteWhereNameIn [''siteurl'', ''home'']))
   \<and> MysqlEnd \<notin> set (events doDb deleteFails)
   \<and> mysql (snd (doDb deleteFails)) = Some Open"
proof -
  have h: "env ready = Some sampleEnv" "fst (mysqlBackup ready) = Inr ()"
    "\<not> faulty ready CreateConnection"
    "env deleteFails = Some sampleEnv"
    "fst (mysqlBackup deleteFails) = Inr ()"
    "\<not> faulty deleteFails CreateConnection"
    by (simp_all add: db_defs ready_def deleteFails_def site_def)
  have t: "trace ready = []" "trace deleteFails = []" "\<not> faulty ready MysqlEnd"
    "faulty deleteFails (MysqlQuery (DeleteWhereNameIn [''siteurl'', ''home'']))"
    by (simp_all add: ready_def deleteFails_def site_def)
  show ?thesis
    using disconnect_after_rewrite [OF h(1,2,3)] disconnect_after_rewrite [OF h(4,5,6)]
    by (simp add: h t events_def doDb_ready doDb_deleteFails siteUrlStatements_def)
qed

text \<open>
  C6: whatever rows \<open>wp_options\<close> holds for \<open>siteurl\<close> and \<open>home\<close> (none, one or
  several each), when \<open>updateDbSiteUrl\<close> completes the table holds exactly one row for
  \<open>siteurl\<close> and one for \<open>home\<close>, both with the value of \<open>WP_HOME\<close>; the table is the old
  one without its rows for the two keys, followed by the two new rows.
\<close>

theorem updateDbSiteUrl_rows:
  assumes "updateDbSiteUrl s = (Inr (), s')" and "env s = Some e"
  shows "filter (\<lambda>(name, _). name = ''siteurl'') (wp_options s') = [(''siteurl'', e ''WP_HOME'')]
       \<and> filter (\<lambda>(name, _). name = ''home'') (wp_options s') = [(''home'', e ''WP_HOME'')]
       \<and> wp_options s'
           = filter (\<lambda>(name, _). name \<notin> set [''siteurl'', ''home'']) (wp_options s)
             @ [(''siteurl'', e ''WP_HOME''), (''home'', e ''WP_HOME'')]"
proof -
  have rows: "wp_options s'
      = filter (\<lambda>(name, _). name \<notin> set [''siteurl'', ''home'']) (wp_options s)
        @ [(''siteurl'', e ''WP_HOME''), (''home'', e ''WP_HOME'')]"
    using assms
    by (auto simp: db_defs split: option.splits if_splits connection.splits)
  have "filter (\<lambda>(name, _). name = ''siteurl'')
      (filter (\<lambda>(name, _). name \<notin> set [''siteurl'', ''home'']) (wp_options s)) = []"
    "filter (\<lambda>(name, _). name = ''home'')
      (filter (\<lambda>(name, _). name \<notin> set [''siteurl'', ''home'']) (wp_options s)) = []"
    by (auto simp: filter_empty_conv)
  with rows show ?thesis by simp
qed

theorem updateDbSiteUrl_rows_witness:
  "updateDbSiteUrl connected
     = (Inr (),
        connected\<lparr>wp_options := [(''blogname'', Some ''Blog''),
            (''siteurl'', Some ''https://example.com''), (''home'', Some ''https://example.com'')],
          trace := map MysqlQuery (siteUrlStatements (Some ''https://example.com''))\<rparr>)
   \<and> env connected = Some sampleEnv
   \<and> sampleEnv ''WP_HOME'' = Some ''https://example.com''
   \<and> filter (\<lambda>(name, _). name = ''siteurl'')
        [(''blogname'', Some ''Blog''),
         (''siteurl'', Some ''https://example.com''), (''home'', Some ''https://example.com'')]
       = [(''siteurl'', Some ''https://example.com'')]
   \<and> filter (\<lambda>(name, _). name = ''home'')
        [(''blogname'', Some ''Blog''),
         (''siteurl'', Some ''https://example.com''), (''home'', Some ''https://example.com'')]
       = [(''home'', Some ''https://example.com'')]"
proof -
  have run: "updateDbSiteUrl connected
     = (Inr (),
        connected\<lparr>wp_options := [(''blogname'', Some ''Blog''),
            (''siteurl'', Some ''https://example.com''), (''home'', Some ''https://example.com'')],
          trace := map MysqlQuery (siteUrlStatements (Some ''https://example.com''))\<rparr>)"
    by (simp add: db_defs connected_def ready_def site_def sampleEnv_def siteUrlStatements_def)
  have e: "env connected = Some sampleEnv"
    by (simp add: connected_def ready_def)
  show ?thesis
    using updateDbSiteUrl_rows [OF run e] by (simp add: run e sampleEnv_def)
qed

section \<open>Properties of searching and replacing\<close>

lemma search_None_iff: "search pat t = None \<longleftrightarrow> \<not> sublist pat t"
  by (induction t) (auto simp: sublist_Cons_right)

lemma search_prefix: "prefix pat t \<Longrightarrow> search pat t = Some 0"
  by (cases t) auto

lemma search_Some_split:
  "search pat t = Some i \<Longrightarrow> t = take i t @ pat @ drop (i + length pat) t"
proof (induction t arbitrary: i)
  case Nil
  then show ?case by (simp split: if_splits)
next
  case (Cons c cs)
  show ?case
  proof (cases "prefix pat (c # cs)")
    case True
    with Cons.prems have "i = 0" by simp
    with True show ?thesis by (auto simp: prefix_def)
  next
    case False
    with Cons.prems obtain j where j: "search pat cs = Some j" "i = Suc j" by auto
    from Cons.IH [OF j(1)] j(2) show ?thesis by simp
  qed
qed

lemma search_first:
  assumes "pat \<noteq> []" and "\<not> sublist pat (u @ butlast pat)"
  shows "search pat (u @ pat @ rest) = Some (length u)"
  using assms(2)
proof (induction u)
  case Nil
  then show ?case by (simp add: search_prefix)
next
  case (Cons c u)
  have "\<not> prefix pat ((c # u) @ pat @ rest)"
  proof
    assume p: "prefix pat ((c # u) @ pat @ rest)"
    have "prefix ((c # u) @ butlast pat) ((c # u) @ pat @ rest)"
      by (metis append_butlast_last_id assms(1) append.assoc prefixI)
    moreover have "length pat \<le> length ((c # u) @ butlast pat)"
      by simp
    ultimately have "prefix pat ((c # u) @ butlast pat)"
      using p prefix_length_prefix by blast
    with Cons.prems show False by blast
  qed
  moreover have "\<not> sublist pat (u @ butlast pat)"
    using Cons.prems by (simp add: sublist_Cons_right)
  ultimately show ?case
    using Cons.IH by simp
qed

lemma sublist_fence:
  assumes "c \<notin> set pat"
  shows "sublist pat (x @ c # y) \<longleftrightarrow> sublist pat x \<or> sublist pat y"
proof
  assume "sublist pat (x @ c # y)"
  then consider "sublist pat x" | "sublist pat (c # y)"
    | xs1 xs2 where "pat = xs1 @ xs2" "suffix xs1 x" "prefix xs2 (c # y)"
    by (auto simp: sublist_append)
  then show "sublist pat x \<or> sublist pat y"
  proof cases
    case 1
    then show ?thesis by simp
  next
    case 2
    then show ?thesis
      using assms by (cases pat) (auto simp: sublist_Cons_right)
  next
    case 3
    with assms have "xs2 = []" by (cases xs2) auto
    with 3 show ?thesis by auto
  qed
next
  assume "sublist pat x \<or> sublist pat y"
  then show "sublist pat (x @ c # y)"
    by (metis sublist_append sublist_Cons_right)
qed

lemma getSubstitution_plain:
  "CHR ''$'' \<notin> set replacement \<Longrightarrow> getSubstitution m b a replacement = replacement"
  by (induction m b a replacement rule: getSubstitution.induct) auto

lemma replace_at:
  assumes "search pat t = Some i" and "CHR ''$'' \<notin> set replacement"
  shows "replace t pat replacement = take i t @ replacement @ drop (i + length pat) t"
  using assms by (simp add: replace_def getSubstitution_plain)


lemma indexOf_absent: "indexOf t pat = - 1 \<longleftrightarrow> \<not> sublist pat t"
  by (cases "search pat t") (auto simp: indexOf_def search_None_iff [symmetric])

lemma not_alphanumeric: "\<not> alphanumeric CHR ''$''" "\<not> alphanumeric CHR '' ''"
  by (simp_all add: alphanumeric_def)

lemma validToken_chars:
  assumes "validToken token"
  shows "CHR ''$'' \<notin> set token" and "CHR '' '' \<notin> set token"
  using assms not_alphanumeric unfolding validToken_def list_all_iff by blast+

lemma validToken_no_placeholder: "validToken token \<Longrightarrow> \<not> sublist placeholder token"
proof
  assume "validToken token" and "sublist placeholder token"
  then have "set placeholder \<subseteq> set token" "CHR '' '' \<notin> set token"
    by (auto dest: set_mono_sublist validToken_chars)
  then show False by (auto simp: placeholder_def)
qed

lemma replace_fewer_spaces:
  assumes "validToken token" and "sublist placeholder t"
  shows "count_list (replace t placeholder token) CHR '' '' + 4 = count_list t CHR '' ''"
proof -
  from assms(2) obtain i where i: "search placeholder t = Some i"
    using search_None_iff by fastforce
  let ?a = "take i t" and ?b = "drop (i + length placeholder) t"
  have t: "t = ?a @ placeholder @ ?b"
    by (rule search_Some_split [OF i])
  have r: "replace t placeholder token = ?a @ token @ ?b"
    using i assms(1) by (simp add: replace_at validToken_chars)
  have "count_list token CHR '' '' = 0"
    using assms(1) by (simp add: validToken_chars)
  moreover have "count_list placeholder CHR '' '' = 4"
    by (simp add: placeholder_def)
  moreover have "count_list t CHR '' '' =
      count_list ?a CHR '' '' + count_list placeholder CHR '' '' + count_list ?b CHR '' ''"
    by (subst t) simp
  ultimately show ?thesis
    by (simp add: r)
qed

lemma secrets_terminates:
  assumes "\<forall>k. validToken (generate k)"
  shows "\<exists>result. secrets generate n t = Some result"
proof (induction "count_list t CHR '' ''" arbitrary: n t rule: less_induct)
  case less
  show ?case
  proof (cases "sublist placeholder t")
    case False
    then show ?thesis
      by (subst secrets.simps) (simp add: indexOf_absent)
  next
    case True
    have "count_list (replace t placeholder (generate n)) CHR '' '' < count_list t CHR '' ''"
      using replace_fewer_spaces [OF _ True, of "generate n"] assms by simp
    from less [OF this, of "Suc n"] True show ?thesis
      by (subst secrets.simps) (simp add: indexOf_absent)
  qed
qed

lemma placeholder_not_in_butlast: "\<not> sublist placeholder (butlast placeholder)"
proof
  assume "sublist placeholder (butlast placeholder)"
  then have "length placeholder \<le> length (butlast placeholder)"
    by (rule sublist_length_le)
  then show False by (simp add: placeholder_def)
qed

lemma secrets_fills:
  assumes "\<forall>k. validToken (generate k)"
    and "fenced pieces" and "pieces \<noteq> []"
    and "\<forall>a \<in> set pieces. \<not> sublist placeholder a"
    and "\<not> sublist placeholder (pre @ hd pieces)"
  shows "secrets generate n (pre @ join placeholder pieces)
         = Some (pre @ fill generate n pieces, n + (length pieces - 1))"
  using assms(2-)
proof (induction pieces arbitrary: pre n rule: fenced.induct)
  case 1
  then show ?case by simp
next
  case (2 a)
  then show ?case
    by (subst secrets.simps) (simp add: indexOf_absent)
next
  case (3 a b pieces)
  let ?tok = "generate n"
  let ?rest = "join placeholder (b # pieces)"
  have tok: "validToken ?tok" using assms(1) by simp
  define a' where "a' = butlast a"
  define c1 where "c1 = last a"
  define c2 where "c2 = hd b"
  define b' where "b' = tl b"
  have a: "a = a' @ [c1]" and c1: "c1 \<notin> set placeholder"
    using "3.prems"(1) by (simp_all add: a'_def c1_def)
  have b: "b = c2 # b'" and c2: "c2 \<notin> set placeholder"
    using "3.prems"(1) by (simp_all add: b'_def c2_def)
  have "\<not> sublist placeholder ((pre @ a') @ c1 # [])"
    using "3.prems"(4) a by simp
  then have no_a: "\<not> sublist placeholder (pre @ a')"
    by (simp only: sublist_fence [OF c1]) simp
  have first: "search placeholder ((pre @ a) @ placeholder @ ?rest) = Some (length (pre @ a))"
  proof (rule search_first)
    show "placeholder \<noteq> []" by (simp add: placeholder_def)
    have "\<not> sublist placeholder ((pre @ a') @ c1 # butlast placeholder)"
      using no_a placeholder_not_in_butlast by (simp only: sublist_fence [OF c1]) simp
    then show "\<not> sublist placeholder ((pre @ a) @ butlast placeholder)"
      by (simp add: a)
  qed
  have step: "replace (pre @ join placeholder (a # b # pieces)) placeholder ?tok
      = (pre @ a @ ?tok) @ ?rest"
    using replace_at [OF first, of ?tok] validToken_chars(1) [OF tok] by simp
  have occurs: "sublist placeholder (pre @ join placeholder (a # b # pieces))"
    using sublist_appendI [of placeholder "pre @ a" ?rest] by simp
  have next_ok: "\<not> sublist placeholder ((pre @ a @ ?tok) @ hd (b # pieces))"
  proof -
    have "\<not> sublist placeholder b" using "3.prems"(3) by simp
    then have "\<not> sublist placeholder b'"
      by (subst (asm) b) (simp add: sublist_Cons_right)
    then have "\<not> sublist placeholder (?tok @ c2 # b')"
      using validToken_no_placeholder [OF tok] by (simp only: sublist_fence [OF c2]) simp
    then have "\<not> sublist placeholder ((pre @ a') @ c1 # (?tok @ c2 # b'))"
      using no_a by (simp only: sublist_fence [OF c1]) simp
    then show ?thesis by (simp add: a b [symmetric])
  qed
  have "secrets generate (Suc n) ((pre @ a @ ?tok) @ ?rest)
      = Some ((pre @ a @ ?tok) @ fill generate (Suc n) (b # pieces),
              Suc n + (length (b # pieces) - 1))"
  proof (rule "3.IH")
    show "fenced (b # pieces)" using "3.prems"(1) by simp
    show "b # pieces \<noteq> []" by simp
    show "\<forall>a \<in> set (b # pieces). \<not> sublist placeholder a" using "3.prems"(3) by simp
    show "\<not> sublist placeholder ((pre @ a @ ?tok) @ hd (b # pieces))" by (rule next_ok)
  qed
  with step occurs show ?case
    by (subst secrets.simps) (simp add: indexOf_absent)
qed


section \<open>Properties of the configuration template\<close>

lemmas template_defs = findReplace_def sampleEnv_def toString_def replace_def
  replaceTablePrefix_def matchTablePrefix_def wpDebugFalse_def wpDebug_def squote_def
  backtick_def isWhiteSpace_def placeholder_def quoted_def

lemma plainToken_valid: "validToken (plainToken k)"
  by (simp add: validToken_def plainToken_def alphanumeric_def)

lemma hereToken_valid: "validToken hereToken"
  by (simp add: validToken_def hereToken_def alphanumeric_def)

lemma substitute_sample:
  "substitute (findReplace sampleEnv) sampleTemplate = join placeholder samplePieces"
  by (simp add: template_defs sampleTemplate_def samplePieces_def)

lemma fill_sample: "fill plainToken 0 samplePieces = sampleConfig"
  by (simp add: samplePieces_def sampleConfig_def quoted_def)

lemma substitute_broken: "substitute (findReplace sampleEnv) brokenTemplate = brokenTemplate"
  by (simp add: template_defs brokenTemplate_def)

lemma replace_broken:
  "replace brokenTemplate placeholder hereToken = placeholder @ drop 4 hereToken"
  by (simp add: placeholder_def brokenTemplate_def replace_def hereToken_def)

lemma replace_broken_again:
  "replace (placeholder @ drop 4 hereToken) placeholder (plainToken 1)
     = plainToken 1 @ drop 4 hereToken"
  by (simp add: placeholder_def replace_def hereToken_def plainToken_def)

lemma prefix_fence: "c \<notin> set pat \<Longrightarrow> prefix pat (u @ c # y) \<longleftrightarrow> prefix pat u"
proof
  assume c: "c \<notin> set pat" and "prefix pat (u @ c # y)"
  then consider "prefix pat u" | us where "pat = u @ us" "prefix us (c # y)"
    by (auto simp: prefix_append)
  then show "prefix pat u"
  proof cases
    case 2
    with c have "us = []" by (cases us) auto
    with 2 show ?thesis by simp
  qed
next
  assume "prefix pat u"
  then show "prefix pat (u @ c # y)" by (rule prefix_prefix)
qed

lemma not_prefix_fence: "c \<notin> set pat \<Longrightarrow> pat \<noteq> [] \<Longrightarrow> \<not> prefix pat (c # y)"
  by (cases pat) auto

lemma occurrences_fence:
  assumes "pat \<noteq> []" and "c \<notin> set pat"
  shows "occurrences pat (x @ c # y) = occurrences pat x + occurrences pat y"
proof (induction x)
  case Nil
  have "\<not> prefix pat (c # y)"
    using assms by (cases pat) auto
  with assms(1) show ?case by simp
next
  case (Cons a x)
  have "prefix pat (a # x @ c # y) \<longleftrightarrow> prefix pat (a # x)"
    using prefix_fence [OF assms(2), of "a # x" y] by simp
  with Cons show ?case by simp
qed

lemma occurrences_none: "occurrences pat t = 0 \<longleftrightarrow> \<not> sublist pat t"
  by (induction t) (auto simp: sublist_Cons_right)

lemma occurrences_placeholder_self: "occurrences placeholder placeholder = 1"
  by (simp add: placeholder_def)

lemma occurrences_pieces:
  assumes "fenced pieces" and "pieces \<noteq> []" and "\<forall>a \<in> set pieces. \<not> sublist placeholder a"
  shows "occurrences placeholder (join placeholder pieces) = length pieces - 1"
  using assms
proof (induction pieces rule: fenced.induct)
  case 1
  then show ?case by simp
next
  case (2 a)
  then show ?case by (simp add: occurrences_none)
next
  case (3 a b pieces)
  define a' where "a' = butlast a"
  define c1 where "c1 = last a"
  define c2 where "c2 = hd b"
  define rest where "rest = tl (join placeholder (b # pieces))"
  have ne: "placeholder \<noteq> []" by (simp add: placeholder_def)
  have a: "a = a' @ [c1]" and c1: "c1 \<notin> set placeholder"
    using "3.prems"(1) by (simp_all add: a'_def c1_def)
  have "b \<noteq> []" and c2: "c2 \<notin> set placeholder"
    using "3.prems"(1) by (simp_all add: c2_def)
  then have j: "join placeholder (b # pieces) = c2 # rest"
    by (cases b; cases pieces) (simp_all add: rest_def c2_def)
  have "\<not> sublist placeholder (a' @ c1 # [])"
    using "3.prems"(3) a by simp
  then have "occurrences placeholder a' = 0"
    by (simp add: occurrences_none sublist_fence [OF c1])
  moreover have "occurrences placeholder (join placeholder (a # b # pieces))
      = occurrences placeholder a' + occurrences placeholder (placeholder @ c2 # rest)"
    using occurrences_fence [OF ne c1, of a' "placeholder @ c2 # rest"] by (simp add: a j)
  moreover have "occurrences placeholder (placeholder @ c2 # rest)
      = 1 + occurrences placeholder rest"
    by (simp add: occurrences_fence [OF ne c2] occurrences_placeholder_self)
  moreover have "occurrences placeholder (c2 # rest) = occurrences placeholder rest"
  proof -
    have "\<not> prefix placeholder (c2 # rest)"
      using c2 ne by (rule not_prefix_fence)
    then show ?thesis by simp
  qed
  moreover have "occurrences placeholder (join placeholder (b # pieces)) = length (b # pieces) - 1"
    using "3.prems" by (intro "3.IH") simp_all
  ultimately show ?case by (simp add: j)
qed

text \<open>
  C10, as stated, fails in its reason: an iteration need not lower the number of
  occurrences of the placeholder. A token that begins with \<open>here\<close>, put after a text
  that ends with \<open>put your unique phrase \<close>, completes a new occurrence: the text
  \<open>brokenTemplate\<close> holds one occurrence before the iteration and one after it.
\<close>

theorem occurrences_not_decreasing:
  "validToken hereToken
   \<and> indexOf brokenTemplate placeholder \<noteq> - 1
   \<and> occurrences placeholder brokenTemplate = 1
   \<and> occurrences placeholder (replace brokenTemplate placeholder hereToken) = 1"
proof -
  have "occurrences placeholder brokenTemplate = 1"
    by (simp add: placeholder_def brokenTemplate_def)
  moreover have "occurrences placeholder (placeholder @ drop 4 hereToken) = 1"
    by (simp add: placeholder_def hereToken_def)
  moreover have "indexOf brokenTemplate placeholder \<noteq> - 1"
    by (simp add: indexOf_def placeholder_def brokenTemplate_def)
  ultimately show ?thesis
    by (simp add: hereToken_valid replace_broken)
qed

text \<open>
  C10, amended: when every token is 64 alphanumeric characters, the loop of
  \<open>populateWpConfig\<close> ends for every template and every environment. No token contains
  the placeholder, and no token contains a space, so each iteration removes the four
  spaces of the occurrence it replaces: the number of spaces in the text goes down by
  four in each iteration.
\<close>

theorem secrets_loop_ends:
  assumes "\<forall>k. validToken (generate k)"
  shows "(\<exists>result. populateWpConfig generate n template e = Some result)
       \<and> (\<exists>result. secrets generate n template = Some result)
       \<and> \<not> sublist placeholder (generate n)
       \<and> (indexOf template placeholder \<noteq> - 1
            \<longrightarrow> count_list (replace template placeholder (generate n)) CHR '' '' + 4
                = count_list template CHR '' '')"
proof -
  have "validToken (generate n)" using assms by simp
  then show ?thesis
    using secrets_terminates [OF assms] replace_fewer_spaces [of "generate n" template]
    by (simp add: populateWpConfig_def validToken_no_placeholder indexOf_absent)
qed

theorem secrets_loop_ends_witness:
  "(\<forall>k. validToken (plainToken k))
   \<and> populateWpConfig plainToken 0 sampleTemplate sampleEnv = Some (sampleConfig, 2)
   \<and> \<not> sublist placeholder (plainToken 0)
   \<and> indexOf brokenTemplate placeholder \<noteq> - 1
   \<and> count_list (replace brokenTemplate placeholder (plainToken 0)) CHR '' '' + 4
       = count_list brokenTemplate CHR '' ''"
proof -
  have v: "\<forall>k. validToken (plainToken k)"
    by (simp add: plainToken_valid)
  have "indexOf brokenTemplate placeholder \<noteq> - 1"
    by (simp add: indexOf_def placeholder_def brokenTemplate_def)
  moreover have "populateWpConfig plainToken 0 sampleTemplate sampleEnv = Some (sampleConfig, 2)"
    using secrets_fills [OF v, of samplePieces "[]" 0]
    by (simp add: populateWpConfig_def substitute_sample fill_sample)
      (simp add: samplePieces_def placeholder_def sublist_code squote_def quoted_def)
  ultimately show ?thesis
    using secrets_loop_ends [OF v, of 0 sampleTemplate sampleEnv]
      secrets_loop_ends [OF v, of 0 brokenTemplate sampleEnv]
    by (simp add: v)
qed

lemma samplePieces_fenced:
  "samplePieces \<noteq> []" "fenced samplePieces" "\<forall>a \<in> set samplePieces. \<not> sublist placeholder a"
  by (simp_all add: samplePieces_def placeholder_def sublist_code squote_def quoted_def)


text \<open>
  C7, as stated, fails: the text \<open>brokenTemplate\<close> holds one occurrence of the
  placeholder, and with a source whose first token begins with \<open>here\<close> the loop draws
  two tokens, not one. The first token completes a new occurrence, which the second
  iteration replaces together with the first four characters of that token.
\<close>

theorem two_tokens_for_one_occurrence:
  "occurrences placeholder brokenTemplate = 1
   \<and> validToken (hereFirst 0) \<and> validToken (hereFirst 1) \<and> hereFirst 0 \<noteq> hereFirst 1
   \<and> populateWpConfig hereFirst 0 brokenTemplate sampleEnv
       = Some (plainToken 1 @ drop 4 hereToken, 2)
   \<and> \<not> sublist (hereFirst 0) (plainToken 1 @ drop 4 hereToken)"
proof -
  have occ: "occurrences placeholder brokenTemplate = 1"
    by (simp add: placeholder_def brokenTemplate_def)
  have tokens: "validToken (hereFirst 0)" "validToken (hereFirst 1)" "hereFirst 0 \<noteq> hereFirst 1"
    by (simp_all add: hereFirst_def hereToken_valid plainToken_valid)
      (simp add: hereToken_def plainToken_def)
  have i1: "indexOf brokenTemplate placeholder \<noteq> - 1"
    by (simp add: indexOf_def placeholder_def brokenTemplate_def)
  have i2: "indexOf (placeholder @ drop 4 hereToken) placeholder \<noteq> - 1"
    by (simp add: indexOf_absent)
  have i3: "indexOf (plainToken (Suc 0) @ drop 4 hereToken) placeholder = - 1"
    by (simp add: indexOf_def placeholder_def plainToken_def hereToken_def)
  have r2: "replace (placeholder @ drop 4 hereToken) placeholder (plainToken (Suc 0))
      = plainToken (Suc 0) @ drop 4 hereToken"
    using replace_broken_again by simp
  have h: "hereFirst 0 = hereToken" "hereFirst (Suc 0) = plainToken (Suc 0)"
    by (simp_all add: hereFirst_def)
  have "secrets hereFirst (Suc (Suc 0)) (plainToken (Suc 0) @ drop 4 hereToken)
      = Some (plainToken (Suc 0) @ drop 4 hereToken, Suc (Suc 0))"
    by (subst secrets.simps) (simp add: i3)
  then have "secrets hereFirst (Suc 0) (placeholder @ drop 4 hereToken)
      = Some (plainToken (Suc 0) @ drop 4 hereToken, Suc (Suc 0))"
    by (subst secrets.simps) (simp only: i2 h r2 if_True not_False_eq_True)
  then have "secrets hereFirst 0 brokenTemplate
      = Some (plainToken (Suc 0) @ drop 4 hereToken, Suc (Suc 0))"
    by (subst secrets.simps) (simp only: i1 h replace_broken if_True not_False_eq_True)
  then have "secrets hereFirst 0 brokenTemplate = Some (plainToken 1 @ drop 4 hereToken, 2)"
    by simp
  moreover have "\<not> sublist (hereFirst 0) (plainToken 1 @ drop 4 hereToken)"
    by (simp add: hereFirst_def hereToken_def plainToken_def sublist_code)
  ultimately show ?thesis
    using occ tokens by (simp add: populateWpConfig_def substitute_broken)
qed

text \<open>
  C7, amended: let the text that enters the loop (the template after the rules of
  \<open>findReplace\<close>) consist of pieces with one placeholder between each two of them,
  where no piece contains the placeholder and each placeholder lies between two
  characters that do not occur in it (such as the quotes of the sample file). Then the
  text holds one occurrence less than it has pieces, the loop draws exactly that many
  tokens, and the result is the pieces with the tokens between them in the order they
  were drawn: the \<open>i\<close>-th occurrence receives the \<open>i\<close>-th token drawn. Tokens that differ
  pairwise therefore give secrets that differ pairwise.
\<close>

theorem populateWpConfig_fills:
  assumes "\<forall>k. validToken (generate k)"
    and "substitute (findReplace e) template = join placeholder pieces"
    and "pieces \<noteq> []" and "fenced pieces"
    and "\<forall>a \<in> set pieces. \<not> sublist placeholder a"
  shows "occurrences placeholder (substitute (findReplace e) template) = length pieces - 1
       \<and> populateWpConfig generate n template e
           = Some (fill generate n pieces, n + (length pieces - 1))"
proof -
  have "\<not> sublist placeholder ([] @ hd pieces)"
    using assms(3,5) by simp
  from secrets_fills [OF assms(1,4,3,5) this] occurrences_pieces [OF assms(4,3,5)]
  show ?thesis
    by (simp add: populateWpConfig_def assms(2))
qed

theorem populateWpConfig_fills_witness:
  "(\<forall>k. validToken (plainToken k))
   \<and> substitute (findReplace sampleEnv) sampleTemplate = join placeholder samplePieces
   \<and> samplePieces \<noteq> [] \<and> fenced samplePieces
   \<and> list_all (\<lambda>a. \<not> sublist placeholder a) samplePieces
   \<and> length samplePieces - 1 = 2
   \<and> occurrences placeholder (substitute (findReplace sampleEnv) sampleTemplate) = 2
   \<and> populateWpConfig plainToken 0 sampleTemplate sampleEnv = Some (sampleConfig, 2)"
proof -
  have v: "\<forall>k. validToken (plainToken k)"
    by (simp add: plainToken_valid)
  have "length samplePieces = 3"
    by (simp add: samplePieces_def)
  then show ?thesis
    using populateWpConfig_fills [OF v substitute_sample samplePieces_fenced, of 0]
    by (simp add: v substitute_sample [symmetric] samplePieces_fenced fill_sample list_all_iff)
qed

section \<open>Properties of the segments of a text\<close>

lemma segments_ne [simp]: "segments t \<noteq> []"
  by (induction t) (auto split: list.splits)


declare segments.simps(2) [simp del]





















lemma tidy_Nil: "tidy []"
  by (simp add: tidy_def)

lemma tidy_tl: "tidy segs \<Longrightarrow> tidy (tl segs)"
  by (cases segs) (auto simp: tidy_def)










































lemma remoteConfig_free:
  "list_all (\<lambda>lit. \<not> sublist lit remoteConfig) literals" "\<not> sublist placeholder remoteConfig"
  by (simp_all add: remoteConfig_def quoted_def squote_def literals_def placeholder_def
      plainToken_def sublist_code)





section \<open>Properties of the full procedure\<close>



























end
